theory Spec2Isabelle
  imports
    Complex_Main
    "HOL-Library.AList"
    "HOL-Library.Char_ord"
    "HOL-Library.List_Lexorder"
begin

section \<open>Data model of \<^verbatim>\<open>src/App.tsx\<close>\<close>

text \<open>
  The TypeScript interfaces become records. Several interfaces share field names
  (\<^verbatim>\<open>id\<close>, \<^verbatim>\<open>name\<close>, \<^verbatim>\<open>severity\<close>), so every field carries a short prefix
  naming its interface. A JavaScript \<^verbatim>\<open>number\<close> is modelled as a real: rounding,
  \<^verbatim>\<open>NaN\<close> and the infinities of IEEE doubles are outside the model.
\<close>

datatype ProductLine = WR | WRX

datatype Severity = LOW | MEDIUM | HIGH

record Destination =
  d_id :: string
  d_name :: string
  d_country :: string

record Itinerary =
  i_id :: string
  i_name :: string
  i_destinationId :: string

record Tour =
  t_id :: string
  t_itineraryId :: string
  t_startDate :: string
  t_endDate :: string
  t_productLine :: ProductLine
  t_dmcName :: string
  t_coordinatorName :: string

record Scores =
  overall :: real
  qp :: real
  accommodation :: real
  logistics :: real
  preDepartureInfo :: real
  coordinatorCourtesy :: real
  coordinatorLeadership :: real
  coordinatorOrganisation :: real

record Comments =
  c_general :: string
  c_accommodationBad :: string
  c_logistics :: string
  c_coordinator :: string

record SurveyResponse =
  r_id :: string
  r_tourId :: string
  r_createdAt :: string
  scores :: Scores
  comments :: Comments
  r_domain :: string

record Tags =
  productTags :: "string list"
  coordinatorTags :: "string list"

record Annotation =
  a_responseId :: string
  a_tags :: Tags
  a_severity :: Severity
  a_confidence :: real
  a_evidenceSnippets :: "string list"

text \<open>
  The module-level constants \<^verbatim>\<open>destinations\<close>, \<^verbatim>\<open>itineraries\<close>, \<^verbatim>\<open>tours\<close>,
  \<^verbatim>\<open>surveyResponses\<close> and \<^verbatim>\<open>annotations\<close> are generated at load time (partly at
  random); the model takes them as one parameter.
\<close>

record Data =
  destinations :: "Destination list"
  itineraries :: "Itinerary list"
  tours :: "Tour list"
  surveyResponses :: "SurveyResponse list"
  annotations :: "Annotation list"

text \<open>
  The filter state of the \<^verbatim>\<open>App\<close> component that the aggregations read:
  \<^verbatim>\<open>onlyBelow8\<close>, \<^verbatim>\<open>filterDestination\<close> (a destination id or the string
  \<^verbatim>\<open>'All'\<close>) and \<^verbatim>\<open>productLine\<close> (of type \<^verbatim>\<open>'All' | ProductLine\<close>).
\<close>

datatype ProductLineFilter = AllLines | Line ProductLine

record Filters =
  onlyBelow8 :: bool
  filterDestination :: string
  productLine :: ProductLineFilter

section \<open>Filtering\<close>

text \<open>
  \<^verbatim>\<open>const destItineraries = itineraries.filter(i => i.destinationId === X).map(i => i.id);
  const destTours = tours.filter(t => destItineraries.includes(t.itineraryId)).map(t => t.id);\<close>
  This pair of lines occurs verbatim in \<^verbatim>\<open>filteredData\<close> and in \<^verbatim>\<open>destStats\<close>.
\<close>

definition destTours :: "Data \<Rightarrow> string \<Rightarrow> string list" where
  "destTours D destId =
     (let destItineraries = map i_id (filter (\<lambda>i. i_destinationId i = destId) (itineraries D))
      in map t_id (filter (\<lambda>t. t_itineraryId t \<in> set destItineraries) (tours D)))"

definition filteredData :: "Data \<Rightarrow> Filters \<Rightarrow> SurveyResponse list" where
  "filteredData D F =
     (let filtered = surveyResponses D;
          filtered = (if onlyBelow8 F
                      then filter (\<lambda>r. overall (scores r) < 8) filtered else filtered);
          filtered = (if filterDestination F \<noteq> ''All''
                      then filter (\<lambda>r. r_tourId r \<in> set (destTours D (filterDestination F))) filtered
                      else filtered);
          filtered = (case productLine F of
                        AllLines \<Rightarrow> filtered
                      | Line pl \<Rightarrow>
                          (let plTours = map t_id (filter (\<lambda>t. t_productLine t = pl) (tours D))
                           in filter (\<lambda>r. r_tourId r \<in> set plTours) filtered))
      in filtered)"

section \<open>JavaScript objects used as counters\<close>

text \<open>
  \<^verbatim>\<open>issuesCount\<close> and \<^verbatim>\<open>destIssues\<close> are plain objects used as dictionaries from tag
  to value. An object is modelled by the list of its own properties in insertion order:
  assigning to an existing key keeps the key's position, assigning to a new key appends
  it (\<open>AList.update\<close>). Tags are taken to be ordinary property names, not names that
  \<^verbatim>\<open>Object.prototype\<close> already answers (\<^verbatim>\<open>constructor\<close>, \<^verbatim>\<open>toString\<close>, ...).

  \<^verbatim>\<open>Object.entries\<close> lists the keys that are array indices (canonical decimal numerals
  below \<open>2^32 - 1\<close>) first, in ascending numeric order, and then every other string key
  in insertion order.
\<close>

type_synonym 'v obj = "(string \<times> 'v) list"

definition indexVal :: "string \<Rightarrow> nat" where
  "indexVal s = foldl (\<lambda>n c. 10 * n + (of_char c - 48)) 0 s"

definition isArrayIndex :: "string \<Rightarrow> bool" where
  "isArrayIndex s \<longleftrightarrow>
     s \<noteq> [] \<and> list_all (\<lambda>c. c \<in> set ''0123456789'') s
     \<and> (hd s \<noteq> CHR ''0'' \<or> s = ''0'') \<and> indexVal s < 2 ^ 32 - 1"

definition Object_entries :: "'v obj \<Rightarrow> (string \<times> 'v) list" where
  "Object_entries ob =
     sort_key (\<lambda>e. indexVal (fst e)) (filter (\<lambda>e. isArrayIndex (fst e)) ob)
     @ filter (\<lambda>e. \<not> isArrayIndex (fst e)) ob"

section \<open>Issue aggregation\<close>

text \<open>
  \<^verbatim>\<open>const issuesCount: Record<string, number> = {};
  filteredData.forEach(r => {
    const ann = annotations.find(a => a.responseId === r.id);
    if (ann) {
      [...ann.tags.productTags, ...ann.tags.coordinatorTags].forEach(tag => {
        issuesCount[tag] = (issuesCount[tag] || 0) + 1;
      });
    }
  });\<close>
  Each \<^verbatim>\<open>forEach\<close> is a left fold over the array that threads the object.
\<close>

definition allTags :: "Annotation \<Rightarrow> string list" where
  "allTags ann = productTags (a_tags ann) @ coordinatorTags (a_tags ann)"

text \<open>\<open>getCount ic tag\<close> is the expression \<^verbatim>\<open>(issuesCount[tag] || 0)\<close>.\<close>

definition getCount :: "nat obj \<Rightarrow> string \<Rightarrow> nat" where
  "getCount ic tag = (case map_of ic tag of None \<Rightarrow> 0 | Some c \<Rightarrow> c)"

definition bumpCount :: "nat obj \<Rightarrow> string \<Rightarrow> nat obj" where
  "bumpCount ic tag = AList.update tag (getCount ic tag + 1) ic"

definition issuesCount_step :: "Data \<Rightarrow> nat obj \<Rightarrow> SurveyResponse \<Rightarrow> nat obj" where
  "issuesCount_step D ic r =
     (case find (\<lambda>a. a_responseId a = r_id r) (annotations D) of
        None \<Rightarrow> ic
      | Some ann \<Rightarrow> foldl bumpCount ic (allTags ann))"

definition issuesCount :: "Data \<Rightarrow> SurveyResponse list \<Rightarrow> nat obj" where
  "issuesCount D rs = foldl (issuesCount_step D) [] rs"

text \<open>
  \<^verbatim>\<open>const topIssue = Object.entries(issuesCount).sort((a, b) => b[1] - a[1])[0];\<close>
  \<^verbatim>\<open>Array.prototype.sort\<close> is stable; with this comparator it orders by count
  descending. Index \<^verbatim>\<open>[0]\<close> of an empty array is \<^verbatim>\<open>undefined\<close>.
\<close>

definition topIssue :: "nat obj \<Rightarrow> (string \<times> nat) option" where
  "topIssue ic =
     (case sort_key (\<lambda>e. - int (snd e)) (Object_entries ic) of
        [] \<Rightarrow> None
      | e # _ \<Rightarrow> Some e)"

section \<open>Per-destination statistics\<close>

text \<open>
  The value type of \<^verbatim>\<open>destIssues\<close> is
  \<^verbatim>\<open>{ count: number; severity: Record<Severity, number> }\<close>; a
  \<^verbatim>\<open>Record<Severity, number>\<close> is a total function on \<open>Severity\<close>.
\<close>

record IssueStat =
  count :: nat
  severity :: "Severity \<Rightarrow> nat"

text \<open>
  \<^verbatim>\<open>if (!destIssues[tag]) destIssues[tag] = { count: 0, severity: { LOW: 0, MEDIUM: 0, HIGH: 0 } };
  destIssues[tag].count++;
  destIssues[tag].severity[ann.severity]++;\<close>
  A missing tag is first inserted (at the end) with zero counters; both increments then
  update the entry in place.
\<close>

definition bumpIssue :: "Severity \<Rightarrow> IssueStat obj \<Rightarrow> string \<Rightarrow> IssueStat obj" where
  "bumpIssue sev di tag =
     (let cur = (case map_of di tag of
                   None \<Rightarrow> \<lparr>count = 0, severity = (\<lambda>_. 0)\<rparr>
                 | Some st \<Rightarrow> st)
      in AList.update tag
           (cur\<lparr>count := count cur + 1,
                severity := (severity cur)(sev := severity cur sev + 1)\<rparr>) di)"

definition destIssues_step :: "Data \<Rightarrow> IssueStat obj \<Rightarrow> SurveyResponse \<Rightarrow> IssueStat obj" where
  "destIssues_step D di r =
     (case find (\<lambda>a. a_responseId a = r_id r) (annotations D) of
        None \<Rightarrow> di
      | Some ann \<Rightarrow> foldl (bumpIssue (a_severity ann)) di (allTags ann))"

definition destIssues :: "Data \<Rightarrow> SurveyResponse list \<Rightarrow> IssueStat obj" where
  "destIssues D rs = foldl (destIssues_step D) [] rs"

text \<open>
  \<^verbatim>\<open>const topDestIssue = Object.entries(destIssues).sort((a, b) => b[1].count - a[1].count)[0];\<close>
\<close>

definition topDestIssue :: "IssueStat obj \<Rightarrow> (string \<times> IssueStat) option" where
  "topDestIssue di =
     (case sort_key (\<lambda>e. - int (count (snd e))) (Object_entries di) of
        [] \<Rightarrow> None
      | e # _ \<Rightarrow> Some e)"

record TopIssue =
  ti_tag :: string
  ti_count :: nat
  ti_severity :: "Severity \<Rightarrow> nat"

record DestStat =
  dest :: Destination
  avg :: real
  below8 :: real
  delta :: real
  topIssue_of :: "TopIssue option"
  totalReviews :: nat

definition destResponses :: "Data \<Rightarrow> SurveyResponse list \<Rightarrow> Destination \<Rightarrow> SurveyResponse list" where
  "destResponses D fd dst = filter (\<lambda>r. r_tourId r \<in> set (destTours D (d_id dst))) fd"

text \<open>
  The body of \<^verbatim>\<open>destinations.map(dest => ...)\<close> in \<^verbatim>\<open>DestinationsPage\<close>; the copy
  in \<^verbatim>\<open>OverviewPage\<close> is the same text without the field \<^verbatim>\<open>totalReviews\<close>.
  \<^verbatim>\<open>Math.random()\<close> is called once per destination, in array order: \<open>rnd k\<close> is the
  value drawn for the destination at index \<open>k\<close>.
\<close>

definition destStat :: "(nat \<Rightarrow> real) \<Rightarrow> Data \<Rightarrow> SurveyResponse list \<Rightarrow> nat \<times> Destination \<Rightarrow> DestStat" where
  "destStat rnd D fd = (\<lambda>(k, dst).
     (let rs = destResponses D fd dst;
          av = (if length rs > 0
                then foldl (\<lambda>sum r. sum + overall (scores r)) 0 rs / real (length rs)
                else 0);
          b8 = (if length rs > 0
                then real (length (filter (\<lambda>r. overall (scores r) < 8) rs)) / real (length rs) * 100
                else 0);
          top = topDestIssue (destIssues D rs)
      in \<lparr>dest = dst, avg = av, below8 = b8,
          delta = (rnd k - 7 / 10) * 2,
          topIssue_of = (case top of
                           None \<Rightarrow> None
                         | Some e \<Rightarrow> Some \<lparr>ti_tag = fst e, ti_count = count (snd e),
                                            ti_severity = severity (snd e)\<rparr>),
          totalReviews = length rs\<rparr>))"

text \<open>
  \<^verbatim>\<open>destinations.map(...).filter(s => s.avg > 0).sort((a, b) => a.delta - b.delta)\<close>:
  a stable sort by \<^verbatim>\<open>delta\<close> ascending.
\<close>

definition destStats :: "(nat \<Rightarrow> real) \<Rightarrow> Data \<Rightarrow> SurveyResponse list \<Rightarrow> DestStat list" where
  "destStats rnd D fd =
     sort_key delta (filter (\<lambda>s. avg s > 0) (map (destStat rnd D fd) (enumerate 0 (destinations D))))"

section \<open>Impact tracking\<close>

record ImpactMetrics =
  avgScoreBefore :: real
  avgScoreAfter :: real
  pctBelow8Before :: real
  pctBelow8After :: real
  toursBeforeAction :: int
  toursAfterAction :: int

record CorrectiveAction =
  ca_id :: string
  ca_suggestedActionId :: "string option"
  ca_destinationId :: string
  ca_itineraryId :: "string option"
  ca_issueTag :: string
  ca_actionTaken :: string
  ca_implementedAt :: string
  ca_owner :: string
  ca_notes :: string
  impactMetrics :: ImpactMetrics

text \<open>
  \<^verbatim>\<open>completedActionsState.filter(action =>
     filterDestination === 'All' || action.destinationId === filterDestination
   ).sort((a, b) => new Date(b.implementedAt).getTime() - new Date(a.implementedAt).getTime())\<close>
  The date parser is a builtin; \<open>getTime\<close> stands for
  \<^verbatim>\<open>s => new Date(s).getTime()\<close>.
\<close>

definition filteredActions :: "(string \<Rightarrow> int) \<Rightarrow> string \<Rightarrow> CorrectiveAction list \<Rightarrow> CorrectiveAction list" where
  "filteredActions getTime filterDest completedActions =
     sort_key (\<lambda>a. - getTime (ca_implementedAt a))
       (filter (\<lambda>action. filterDest = ''All'' \<or> ca_destinationId action = filterDest) completedActions)"

definition totalAvgImprovement :: "CorrectiveAction list \<Rightarrow> real" where
  "totalAvgImprovement fa =
     (if length fa > 0
      then foldl (\<lambda>sum a. sum + (avgScoreAfter (impactMetrics a) - avgScoreBefore (impactMetrics a))) 0 fa
           / real (length fa)
      else 0)"

definition totalPctImprovement :: "CorrectiveAction list \<Rightarrow> real" where
  "totalPctImprovement fa =
     (if length fa > 0
      then foldl (\<lambda>sum a. sum + (pctBelow8Before (impactMetrics a) - pctBelow8After (impactMetrics a))) 0 fa
           / real (length fa)
      else 0)"

definition scoreDelta :: "CorrectiveAction \<Rightarrow> real" where
  "scoreDelta action = avgScoreAfter (impactMetrics action) - avgScoreBefore (impactMetrics action)"

definition pctDelta :: "CorrectiveAction \<Rightarrow> real" where
  "pctDelta action = pctBelow8Before (impactMetrics action) - pctBelow8After (impactMetrics action)"

section \<open>Completing a suggested action\<close>

datatype ActionType =
  DMC_CHANGE | COORDINATOR_TRAINING | ITINERARY_ADJUSTMENT
  | ACCOMMODATION_UPGRADE | SUPPLIER_REVIEW | PROCESS_IMPROVEMENT

datatype Priority = P_LOW | P_MEDIUM | P_HIGH | P_CRITICAL

datatype Status = SUGGESTED | PLANNED | IN_PROGRESS | COMPLETED | CANCELLED


text \<open>
  The completion form, as the page holds it when the user submits. A text control holds
  a string. An \<^verbatim>\<open><input type="number">\<close> holds, after the browser's sanitisation, either
  nothing (\<open>None\<close>) or a number; its text is taken to be a plain decimal numeral, as the
  spinner and ordinary typing produce.
\<close>

record FormControls =
  fc_actionTaken :: string
  fc_implementedAt :: string
  fc_toursAfterAction :: "real option"
  fc_avgScoreBefore :: "real option"
  fc_avgScoreAfter :: "real option"
  fc_pctBelow8Before :: "real option"
  fc_pctBelow8After :: "real option"
  fc_toursBeforeAction :: "real option"
  fc_notes :: string

text \<open>
  Constraint validation of one \<^verbatim>\<open><input type="number" required min=... max=... step=...>\<close>:
  the control must hold a number (\<^verbatim>\<open>required\<close>), not below \<^verbatim>\<open>min\<close>, not above \<^verbatim>\<open>max\<close>
  when there is one, and a whole number of steps away from \<^verbatim>\<open>min\<close>.
\<close>

definition numberInputValid :: "real \<Rightarrow> real option \<Rightarrow> real \<Rightarrow> real option \<Rightarrow> bool" where
  "numberInputValid lo hi step ctl =
     (case ctl of
        None \<Rightarrow> False
      | Some v \<Rightarrow>
          lo \<le> v \<and> (case hi of None \<Rightarrow> True | Some h \<Rightarrow> v \<le> h)
          \<and> of_int \<lfloor>(v - lo) / step\<rfloor> = (v - lo) / step)"

text \<open>
  The form carries no \<^verbatim>\<open>noValidate\<close>, so the browser raises the submit event only when
  every control satisfies its constraints:
  \<^verbatim>\<open><textarea name="actionTaken" required>
  <input type="date" name="implementedAt" required>
  <input type="number" name="toursAfterAction" required min="1">
  <input type="number" name="avgScoreBefore" required step="0.1" min="0" max="10">
  <input type="number" name="avgScoreAfter" required step="0.1" min="0" max="10">
  <input type="number" name="pctBelow8Before" required step="1" min="0" max="100">
  <input type="number" name="pctBelow8After" required step="1" min="0" max="100">
  <input type="number" name="toursBeforeAction" required min="1">
  <textarea name="notes">\<close>
  A number control without \<^verbatim>\<open>step\<close> has step 1; \<^verbatim>\<open>notes\<close> is not required.
\<close>

definition checkValidity :: "FormControls \<Rightarrow> bool" where
  "checkValidity ctl \<longleftrightarrow>
     fc_actionTaken ctl \<noteq> []
     \<and> fc_implementedAt ctl \<noteq> []
     \<and> numberInputValid 1 None 1 (fc_toursAfterAction ctl)
     \<and> numberInputValid 0 (Some 10) (1 / 10) (fc_avgScoreBefore ctl)
     \<and> numberInputValid 0 (Some 10) (1 / 10) (fc_avgScoreAfter ctl)
     \<and> numberInputValid 0 (Some 100) 1 (fc_pctBelow8Before ctl)
     \<and> numberInputValid 0 (Some 100) 1 (fc_pctBelow8After ctl)
     \<and> numberInputValid 1 None 1 (fc_toursBeforeAction ctl)"

text \<open>
  What the handler reads: \<^verbatim>\<open>formData.get\<close> on the text controls, \<^verbatim>\<open>parseFloat\<close> on
  the scores and percentages, \<^verbatim>\<open>parseInt\<close> on the tour counts. On a plain decimal
  numeral \<^verbatim>\<open>parseFloat\<close> returns the number and \<^verbatim>\<open>parseInt\<close> its integer part. On an
  empty control both return \<^verbatim>\<open>NaN\<close>, which the reals do not have: \<open>readForm\<close> is \<open>None\<close>
  there. A form that passes \<open>checkValidity\<close> has no empty number control.
\<close>

record FormValues =
  fv_actionTaken :: string
  fv_implementedAt :: string
  fv_notes :: string
  fv_avgScoreBefore :: real
  fv_avgScoreAfter :: real
  fv_pctBelow8Before :: real
  fv_pctBelow8After :: real
  fv_toursBeforeAction :: int
  fv_toursAfterAction :: int

definition parseInt :: "real \<Rightarrow> int" where
  "parseInt v = (if 0 \<le> v then \<lfloor>v\<rfloor> else \<lceil>v\<rceil>)"

definition readForm :: "FormControls \<Rightarrow> FormValues option" where
  "readForm ctl =
     (case (fc_avgScoreBefore ctl, fc_avgScoreAfter ctl, fc_pctBelow8Before ctl,
            fc_pctBelow8After ctl, fc_toursBeforeAction ctl, fc_toursAfterAction ctl) of
        (Some sb, Some sa, Some pb, Some pa, Some tb, Some ta) \<Rightarrow>
          Some \<lparr>fv_actionTaken = fc_actionTaken ctl,
                fv_implementedAt = fc_implementedAt ctl,
                fv_notes = fc_notes ctl,
                fv_avgScoreBefore = sb, fv_avgScoreAfter = sa,
                fv_pctBelow8Before = pb, fv_pctBelow8After = pa,
                fv_toursBeforeAction = parseInt tb, fv_toursAfterAction = parseInt ta\<rparr>
      | _ \<Rightarrow> None)"

datatype Page = PageOverview | PageDestination | PageTour | PageActions | PageImpact | PageDestinations


text \<open>
  The template literal \<^verbatim>\<open>`ca-${Date.now()}`\<close> renders the clock reading, a
  non-negative integer of milliseconds, in decimal.
\<close>

definition digit :: "nat \<Rightarrow> char" where
  "digit d = ''0123456789'' ! d"

fun decimal :: "nat \<Rightarrow> string" where
  "decimal n = (if n < 10 then [digit n] else decimal (n div 10) @ [digit (n mod 10)])"

declare decimal.simps [simp del]




section \<open>A small data set\<close>

text \<open>
  Two destinations with one itinerary and one tour each, in the shape that
  \<^verbatim>\<open>generateTours\<close> and \<^verbatim>\<open>generateSurveys\<close> produce. \<open>response\<close> builds a
  survey response from its id, its tour and its overall score; the other fields are
  fixed, none of the aggregations reads them.
\<close>

definition bali :: Destination where
  "bali = \<lparr>d_id = ''d1'', d_name = ''Bali'', d_country = ''Indonesia''\<rparr>"

definition iceland :: Destination where
  "iceland = \<lparr>d_id = ''d2'', d_name = ''Iceland'', d_country = ''Iceland''\<rparr>"

definition baliBeach :: Itinerary where
  "baliBeach = \<lparr>i_id = ''i1'', i_name = ''Bali Beach & Culture'', i_destinationId = ''d1''\<rparr>"

definition ringRoad :: Itinerary where
  "ringRoad = \<lparr>i_id = ''i3'', i_name = ''Iceland Ring Road'', i_destinationId = ''d2''\<rparr>"

definition tourBali :: Tour where
  "tourBali = \<lparr>t_id = ''t-i1-w0'', t_itineraryId = ''i1'', t_startDate = ''2024-11-01'',
     t_endDate = ''2024-11-08'', t_productLine = WR, t_dmcName = ''Local Connect'',
     t_coordinatorName = ''Sarah M.''\<rparr>"

definition tourIceland :: Tour where
  "tourIceland = \<lparr>t_id = ''t-i3-w0'', t_itineraryId = ''i3'', t_startDate = ''2024-11-01'',
     t_endDate = ''2024-11-08'', t_productLine = WRX, t_dmcName = ''Global Tours'',
     t_coordinatorName = ''Marco R.''\<rparr>"

definition response :: "string \<Rightarrow> string \<Rightarrow> real \<Rightarrow> SurveyResponse" where
  "response rid tid ov =
     \<lparr>r_id = rid, r_tourId = tid, r_createdAt = ''2024-11-01'',
      scores = \<lparr>overall = ov, qp = ov + 1, accommodation = ov - 1, logistics = ov,
                preDepartureInfo = 8, coordinatorCourtesy = ov, coordinatorLeadership = ov + 1,
                coordinatorOrganisation = ov\<rparr>,
      comments = \<lparr>c_general = ''Some aspects could be improved'', c_accommodationBad = [],
                  c_logistics = [], c_coordinator = []\<rparr>,
      r_domain = ''weroad.com''\<rparr>"

definition annotation :: "string \<Rightarrow> string list \<Rightarrow> string list \<Rightarrow> Severity \<Rightarrow> Annotation" where
  "annotation rid pts cts sev =
     \<lparr>a_responseId = rid, a_tags = \<lparr>productTags = pts, coordinatorTags = cts\<rparr>,
      a_severity = sev, a_confidence = 9 / 10,
      a_evidenceSnippets = [''Minor logistics delays'']\<rparr>"

definition store :: "SurveyResponse list \<Rightarrow> Annotation list \<Rightarrow> Data" where
  "store rs anns =
     \<lparr>destinations = [bali, iceland], itineraries = [baliBeach, ringRoad],
      tours = [tourBali, tourIceland], surveyResponses = rs, annotations = anns\<rparr>"

definition defaultFilters :: Filters where
  "defaultFilters = \<lparr>onlyBelow8 = True, filterDestination = ''All'', productLine = AllLines\<rparr>"

definition constDraw :: "real \<Rightarrow> nat \<Rightarrow> real" where
  "constDraw x k = x"

text \<open>Bali has two responses below 8; Iceland's only response scores 9.\<close>

definition sampleData :: Data where
  "sampleData =
     store [response ''r-t-i1-w0-0'' ''t-i1-w0'' 7, response ''r-t-i1-w0-1'' ''t-i1-w0'' 6,
            response ''r-t-i3-w0-0'' ''t-i3-w0'' 9]
           [annotation ''r-t-i1-w0-0'' [''poor_accommodation_quality''] [] LOW,
            annotation ''r-t-i1-w0-1'' [''cleanliness_hygiene'', ''poor_accommodation_quality'']
              [''weak_leadership_decision_making''] MEDIUM]"

text \<open>Iceland's only response has overall score 0.\<close>

definition zeroScoreData :: Data where
  "zeroScoreData =
     store [response ''r-t-i1-w0-0'' ''t-i1-w0'' 7, response ''r-t-i3-w0-0'' ''t-i3-w0'' 0]
           [annotation ''r-t-i1-w0-0'' [''poor_accommodation_quality''] [] LOW,
            annotation ''r-t-i3-w0-0'' [''logistics_failures''] [] HIGH]"

text \<open>The whole population is one response, for Bali.\<close>

definition singleResponseData :: Data where
  "singleResponseData =
     store [response ''r-t-i1-w0-0'' ''t-i1-w0'' 7]
           [annotation ''r-t-i1-w0-0'' [''poor_accommodation_quality''] [] LOW]"

text \<open>One annotation lists the same tag as a product tag and as a coordinator tag.\<close>

definition duplicateTagData :: Data where
  "duplicateTagData =
     store [response ''r-t-i1-w0-0'' ''t-i1-w0'' 7]
           [annotation ''r-t-i1-w0-0'' [''logistics_failures''] [''logistics_failures''] LOW]"

text \<open>Two annotated responses with one tag each; the tag met first is the larger name.\<close>

definition tiedTagsData :: Data where
  "tiedTagsData =
     store [response ''r-t-i1-w0-0'' ''t-i1-w0'' 7, response ''r-t-i1-w0-1'' ''t-i1-w0'' 6]
           [annotation ''r-t-i1-w0-0'' [''poor_accommodation_quality''] [] LOW,
            annotation ''r-t-i1-w0-1'' [''cleanliness_hygiene''] [] MEDIUM]"

text \<open>
  An annotation without any tag: \<^verbatim>\<open>generateSurveys\<close> pushes each tag only when a random
  draw passes, so both tag lists can stay empty.
\<close>

definition untaggedData :: Data where
  "untaggedData =
     store [response ''r-t-i1-w0-0'' ''t-i1-w0'' 7]
           [annotation ''r-t-i1-w0-0'' [] [] LOW]"





section \<open>Observations used in the statements\<close>

text \<open>The responses of a subset that have an annotation, as the aggregation finds it.\<close>

definition annotationOf :: "Data \<Rightarrow> SurveyResponse \<Rightarrow> Annotation option" where
  "annotationOf D r = find (\<lambda>a. a_responseId a = r_id r) (annotations D)"

definition annotated :: "Data \<Rightarrow> SurveyResponse list \<Rightarrow> SurveyResponse list" where
  "annotated D rs = filter (\<lambda>r. annotationOf D r \<noteq> None) rs"

text \<open>The occurrence counter of a tag in \<^verbatim>\<open>destIssues\<close>, 0 for a tag without entry.\<close>

definition issueCount :: "IssueStat obj \<Rightarrow> string \<Rightarrow> nat" where
  "issueCount di tag = (case map_of di tag of None \<Rightarrow> 0 | Some st \<Rightarrow> count st)"

text \<open>The tags a response contributes: those of its annotation, none without one.\<close>

definition tagsOf :: "Data \<Rightarrow> SurveyResponse \<Rightarrow> string list" where
  "tagsOf D r = (case annotationOf D r of None \<Rightarrow> [] | Some ann \<Rightarrow> allTags ann)"

text \<open>The three severity buckets of an entry of \<^verbatim>\<open>destIssues\<close> add up to its count.\<close>

definition sevConsistent :: "string \<times> IssueStat \<Rightarrow> bool" where
  "sevConsistent e \<longleftrightarrow>
     severity (snd e) LOW + severity (snd e) MEDIUM + severity (snd e) HIGH = count (snd e)"

text \<open>Two of the seed entries of \<^verbatim>\<open>correctiveActions\<close> (\<^verbatim>\<open>ca-2\<close> and \<^verbatim>\<open>ca-3\<close>).\<close>

definition ca2 :: CorrectiveAction where
  "ca2 = \<lparr>ca_id = ''ca-2'', ca_suggestedActionId = None, ca_destinationId = ''d1'',
     ca_itineraryId = Some ''i2'', ca_issueTag = ''logistics_failures'',
     ca_actionTaken = ''Switched to new transport provider'', ca_implementedAt = ''2024-11-20'',
     ca_owner = ''Sarah M.'', ca_notes = ''No delays reported in subsequent tours.'',
     impactMetrics = \<lparr>avgScoreBefore = 13 / 2, avgScoreAfter = 81 / 10, pctBelow8Before = 72,
       pctBelow8After = 15, toursBeforeAction = 10, toursAfterAction = 7\<rparr>\<rparr>"

definition ca3 :: CorrectiveAction where
  "ca3 = \<lparr>ca_id = ''ca-3'', ca_suggestedActionId = None, ca_destinationId = ''d6'',
     ca_itineraryId = Some ''i9'', ca_issueTag = ''poor_accommodation_quality'',
     ca_actionTaken = ''Upgraded Split accommodation'', ca_implementedAt = ''2024-11-10'',
     ca_owner = ''Sofia L.'', ca_notes = ''Negotiated group rate.'',
     impactMetrics = \<lparr>avgScoreBefore = 71 / 10, avgScoreAfter = 42 / 5, pctBelow8Before = 58,
       pctBelow8After = 12, toursBeforeAction = 9, toursAfterAction = 8\<rparr>\<rparr>"

text \<open>A \<^verbatim>\<open>destIssues\<close> object with two tags of equal count.\<close>

definition tiedIssues :: "IssueStat obj" where
  "tiedIssues =
     [(''poor_accommodation_quality'', \<lparr>count = 1, severity = (\<lambda>_. 0)(LOW := 1)\<rparr>),
      (''cleanliness_hygiene'', \<lparr>count = 1, severity = (\<lambda>_. 0)(MEDIUM := 1)\<rparr>)]"



section \<open>Auxiliary facts\<close>

subsection \<open>Folds and per-destination rows\<close>

lemma foldl_add_sum_list:
  "foldl (\<lambda>sum r. sum + f r) a xs = a + sum_list (map f xs)" for a :: real
  by (induction xs arbitrary: a) simp_all

lemma sum_list_all_zero:
  "\<forall>x \<in> set xs. f x = 0 \<Longrightarrow> sum_list (map f xs) = 0" for f :: "'a \<Rightarrow> real"
  by (induction xs) auto

lemma destStats_set:
  "set (destStats rnd D fd) =
     {s \<in> destStat rnd D fd ` set (enumerate 0 (destinations D)). avg s > 0}"
  by (auto simp: destStats_def)

lemma destStat_dest: "dest (destStat rnd D fd (k, d)) = d"
  by (simp add: destStat_def Let_def)

lemma destStat_avg:
  "avg (destStat rnd D fd (k, d)) =
     (if destResponses D fd d = [] then 0
      else sum_list (map (\<lambda>r. overall (scores r)) (destResponses D fd d))
           / real (length (destResponses D fd d)))"
  by (simp add: destStat_def Let_def foldl_add_sum_list)

lemma destStat_below8:
  "below8 (destStat rnd D fd (k, d)) =
     (if destResponses D fd d = [] then 0
      else real (length (filter (\<lambda>r. overall (scores r) < 8) (destResponses D fd d)))
           / real (length (destResponses D fd d)) * 100)"
  by (simp add: destStat_def Let_def)

lemma destStat_delta: "delta (destStat rnd D fd (k, d)) = (rnd k - 7 / 10) * 2"
  by (simp add: destStat_def Let_def)

lemma destStats_row:
  assumes "s \<in> set (destStats rnd D fd)"
  obtains k where "k < length (destinations D)"
    and "s = destStat rnd D fd (k, destinations D ! k)" and "avg s > 0"
proof -
  from assms obtain p where p: "p \<in> set (enumerate 0 (destinations D))"
    and s: "s = destStat rnd D fd p" and pos: "avg s > 0"
    by (auto simp: destStats_set)
  obtain k d where kd: "p = (k, d)" by (cases p)
  with p have "k < length (destinations D)" "d = destinations D ! k"
    by (auto simp: in_set_enumerate_eq)
  with s pos kd that show thesis by blast
qed

text \<open>
  \<open>destResponses\<close> selects the responses whose tour belongs to an itinerary of the
  destination.
\<close>

lemma destResponses_chain:
  "r \<in> set (destResponses D fd d) \<longleftrightarrow>
     r \<in> set fd \<and>
     (\<exists>t \<in> set (tours D). t_id t = r_tourId r \<and>
        (\<exists>i \<in> set (itineraries D). i_id i = t_itineraryId t \<and> i_destinationId i = d_id d))"
  unfolding destResponses_def destTours_def Let_def
  by (simp add: image_iff) metis

lemma filteredData_below8:
  "onlyBelow8 F \<Longrightarrow> r \<in> set (filteredData D F) \<Longrightarrow> overall (scores r) < 8"
  by (auto simp: filteredData_def Let_def split: if_splits ProductLineFilter.splits)

subsection \<open>Counters\<close>

lemma getCount_bumpCount:
  "getCount (bumpCount ic t) tag = getCount ic tag + (if t = tag then 1 else 0)"
  by (simp add: getCount_def bumpCount_def update_conv')

lemma getCount_foldl_bumpCount:
  "getCount (foldl bumpCount ic ts) tag = getCount ic tag + count_list ts tag"
  by (induction ts arbitrary: ic) (auto simp: getCount_bumpCount)

lemma issueCount_bumpIssue:
  "issueCount (bumpIssue sev di t) tag = issueCount di tag + (if t = tag then 1 else 0)"
  by (simp add: issueCount_def bumpIssue_def Let_def update_conv' split: option.splits)

lemma issueCount_foldl_bumpIssue:
  "issueCount (foldl (bumpIssue sev) di ts) tag = issueCount di tag + count_list ts tag"
  by (induction ts arbitrary: di) (auto simp: issueCount_bumpIssue)

lemma count_list_distinct:
  "distinct xs \<Longrightarrow> count_list xs x = (if x \<in> set xs then 1 else 0)"
  by (induction xs) auto

subsection \<open>\<open>Object_entries\<close> permutes the properties\<close>

lemma sum_list_insort_key:
  "sum_list (map g (insort_key f x xs)) = g x + sum_list (map g xs)"
  for g :: "'a \<Rightarrow> 'b::comm_monoid_add"
  by (induction xs) (auto simp: add.left_commute)

lemma sum_list_sort_key:
  "sum_list (map g (sort_key f xs)) = sum_list (map g xs)"
  for g :: "'a \<Rightarrow> 'b::comm_monoid_add"
  by (induction xs) (auto simp: sum_list_insort_key)

lemma sum_list_filter_split:
  "sum_list (map g (filter P xs)) + sum_list (map g (filter (\<lambda>x. \<not> P x) xs)) = sum_list (map g xs)"
  for g :: "'a \<Rightarrow> nat"
  by (induction xs) auto

lemma sum_list_Object_entries:
  "sum_list (map g (Object_entries ob)) = sum_list (map g ob)" for g :: "string \<times> 'v \<Rightarrow> nat"
  by (simp add: Object_entries_def sum_list_sort_key sum_list_filter_split)

lemma set_Object_entries: "set (Object_entries ob) = set ob"
  by (auto simp: Object_entries_def)

lemma Object_entries_no_index:
  "\<forall>e \<in> set ob. \<not> isArrayIndex (fst e) \<Longrightarrow> Object_entries ob = ob"
  by (simp add: Object_entries_def filter_empty_conv)

lemma sort_key_Nil_iff: "sort_key f xs = [] \<longleftrightarrow> xs = []"
  by (metis length_sort length_0_conv)

lemma Object_entries_Nil_iff: "Object_entries ob = [] \<longleftrightarrow> ob = []"
  by (metis set_Object_entries set_empty)

lemma ranked_Nil_iff: "(sort_key f (Object_entries ob) = []) = (ob = [])"
  by (simp add: sort_key_Nil_iff Object_entries_Nil_iff)

subsection \<open>The sum of all counters\<close>

lemma sum_list_update_getCount:
  "sum_list (map snd (AList.update k (Suc (getCount al k)) al)) = Suc (sum_list (map snd al))"
  by (induction al) (auto simp: getCount_def)

lemma sum_list_foldl_bumpCount:
  "sum_list (map snd (foldl bumpCount ic ts)) = sum_list (map snd ic) + length ts"
  by (induction ts arbitrary: ic) (auto simp: bumpCount_def sum_list_update_getCount)

lemma sum_list_issuesCount_step:
  "sum_list (map snd (issuesCount_step D ic r)) = sum_list (map snd ic) + length (tagsOf D r)"
  by (simp add: issuesCount_step_def tagsOf_def annotationOf_def sum_list_foldl_bumpCount
      split: option.splits)

lemma sum_list_foldl_issuesCount_step:
  "sum_list (map snd (foldl (issuesCount_step D) ic rs))
     = sum_list (map snd ic) + sum_list (map (\<lambda>r. length (tagsOf D r)) rs)"
  by (induction rs arbitrary: ic) (auto simp: sum_list_issuesCount_step)

lemma sum_list_issuesCount:
  "sum_list (map snd (Object_entries (issuesCount D rs))) = sum_list (map (\<lambda>r. length (tagsOf D r)) rs)"
  by (simp add: sum_list_Object_entries issuesCount_def sum_list_foldl_issuesCount_step)

lemma tags_ge_annotated:
  "\<forall>r \<in> set rs. annotationOf D r \<noteq> None \<longrightarrow> tagsOf D r \<noteq> [] \<Longrightarrow>
   length (annotated D rs) \<le> sum_list (map (\<lambda>r. length (tagsOf D r)) rs)"
proof (induction rs)
  case Nil
  then show ?case by (simp add: annotated_def)
next
  case (Cons r rs)
  then have "length (annotated D rs) \<le> sum_list (map (\<lambda>r. length (tagsOf D r)) rs)" by simp
  moreover have "annotationOf D r \<noteq> None \<Longrightarrow> 1 \<le> length (tagsOf D r)"
    using Cons.prems by (cases "tagsOf D r") auto
  ultimately show ?case by (auto simp: annotated_def)
qed

lemma tags_eq_annotated:
  "\<forall>r \<in> set rs. annotationOf D r \<noteq> None \<longrightarrow> length (tagsOf D r) = 1 \<Longrightarrow>
   sum_list (map (\<lambda>r. length (tagsOf D r)) rs) = length (annotated D rs)"
proof (induction rs)
  case Nil
  then show ?case by (simp add: annotated_def)
next
  case (Cons r rs)
  then have "sum_list (map (\<lambda>r. length (tagsOf D r)) rs) = length (annotated D rs)" by simp
  moreover have "annotationOf D r = None \<Longrightarrow> length (tagsOf D r) = 0"
    by (simp add: tagsOf_def)
  moreover have "annotationOf D r \<noteq> None \<Longrightarrow> length (tagsOf D r) = 1"
    using Cons.prems by simp
  ultimately show ?case by (auto simp: annotated_def)
qed

subsection \<open>The severity buckets\<close>

lemma set_update_subset: "set (AList.update k v al) \<subseteq> insert (k, v) (set al)"
  by (induction al) auto

lemma bumpIssue_sevConsistent:
  assumes "\<forall>e \<in> set di. sevConsistent e"
  shows "\<forall>e \<in> set (bumpIssue sev di tag). sevConsistent e"
proof -
  define cur where "cur = (case map_of di tag of
                   None \<Rightarrow> \<lparr>count = 0, severity = (\<lambda>_. 0)\<rparr>
                 | Some st \<Rightarrow> st)"
  have cur: "severity cur LOW + severity cur MEDIUM + severity cur HIGH = count cur"
  proof (cases "map_of di tag")
    case None
    then show ?thesis by (simp add: cur_def)
  next
    case (Some st)
    then have "(tag, st) \<in> set di" by (rule map_of_SomeD)
    with assms have "sevConsistent (tag, st)" by blast
    with Some show ?thesis by (simp add: cur_def sevConsistent_def)
  qed
  let ?new = "cur\<lparr>count := count cur + 1, severity := (severity cur)(sev := severity cur sev + 1)\<rparr>"
  have new: "sevConsistent (tag, ?new)"
    using cur by (cases sev) (simp_all add: sevConsistent_def)
  have "bumpIssue sev di tag = AList.update tag ?new di"
    by (simp add: bumpIssue_def cur_def Let_def)
  with set_update_subset [of tag ?new di] new assms show ?thesis
    by auto
qed

lemma foldl_bumpIssue_sevConsistent:
  "\<forall>e \<in> set di. sevConsistent e \<Longrightarrow> \<forall>e \<in> set (foldl (bumpIssue sev) di ts). sevConsistent e"
proof (induction ts arbitrary: di)
  case Nil
  then show ?case by simp
next
  case (Cons t ts)
  from Cons.prems have "\<forall>e \<in> set (bumpIssue sev di t). sevConsistent e"
    by (rule bumpIssue_sevConsistent)
  then have "\<forall>e \<in> set (foldl (bumpIssue sev) (bumpIssue sev di t) ts). sevConsistent e"
    by (rule Cons.IH)
  then show ?case by simp
qed

lemma destIssues_step_sevConsistent:
  "\<forall>e \<in> set di. sevConsistent e \<Longrightarrow> \<forall>e \<in> set (destIssues_step D di r). sevConsistent e"
  by (simp add: destIssues_step_def foldl_bumpIssue_sevConsistent split: option.splits)

lemma foldl_destIssues_step_sevConsistent:
  "\<forall>e \<in> set di. sevConsistent e \<Longrightarrow> \<forall>e \<in> set (foldl (destIssues_step D) di rs). sevConsistent e"
proof (induction rs arbitrary: di)
  case Nil
  then show ?case by simp
next
  case (Cons r rs)
  from Cons.prems have "\<forall>e \<in> set (destIssues_step D di r). sevConsistent e"
    by (rule destIssues_step_sevConsistent)
  then have "\<forall>e \<in> set (foldl (destIssues_step D) (destIssues_step D di r) rs). sevConsistent e"
    by (rule Cons.IH)
  then show ?case by simp
qed

subsection \<open>The head of a stable sort\<close>

lemma filter_Cons_find: "filter P xs = e # ys \<Longrightarrow> find P xs = Some e"
  by (induction xs) (auto split: if_splits)

lemma sort_key_head:
  fixes f :: "'a \<Rightarrow> int"
  assumes "sort_key f xs = e # rest"
  shows "e \<in> set xs" and "\<forall>x \<in> set xs. f e \<le> f x" and "find (\<lambda>x. f x = f e) xs = Some e"
proof -
  have "set (sort_key f xs) = set xs" by simp
  with assms show mem: "e \<in> set xs" by auto
  have "sorted (map f (sort_key f xs))" by (rule sorted_sort_key)
  with assms have "\<forall>x \<in> set (sort_key f xs). f e \<le> f x" by auto
  then show "\<forall>x \<in> set xs. f e \<le> f x" by simp
  have "filter (\<lambda>y. f y = f e) xs = filter (\<lambda>y. f y = f e) (sort_key f xs)"
    by (rule sort_key_stable [symmetric])
  also have "\<dots> = e # filter (\<lambda>y. f y = f e) rest"
    using assms by simp
  finally show "find (\<lambda>x. f x = f e) xs = Some e" by (rule filter_Cons_find)
qed

subsection \<open>Decimal rendering is injective\<close>

lemma of_char_digit: "d < 10 \<Longrightarrow> of_char (digit d) = (48 + d :: nat)"
proof -
  assume "d < 10"
  then consider "d = 0" | "d = 1" | "d = 2" | "d = 3" | "d = 4" | "d = 5" | "d = 6" | "d = 7"
    | "d = 8" | "d = 9"
    by atomize_elim arith
  then show ?thesis by cases (simp_all add: digit_def)
qed

lemma indexVal_snoc: "indexVal (s @ [c]) = 10 * indexVal s + (of_char c - 48)"
  by (simp add: indexVal_def)

lemma indexVal_decimal: "indexVal (decimal n) = n"
proof (induction n rule: decimal.induct)
  case (1 n)
  show ?case
  proof (cases "n < 10")
    case True
    then show ?thesis
      by (subst decimal.simps) (simp add: indexVal_def of_char_digit)
  next
    case False
    with "1" have "indexVal (decimal (n div 10)) = n div 10" by simp
    then show ?thesis using False
      by (subst decimal.simps) (simp add: indexVal_snoc of_char_digit)
  qed
qed

lemma decimal_inj: "decimal m = decimal n \<Longrightarrow> m = n"
  by (metis indexVal_decimal)

section \<open>Destination summaries\<close>

text \<open>
  Claim C7. A destination without any qualifying response after filtering has no row in
  \<open>destStats\<close>; every row that is there belongs to a destination with at least one
  qualifying response, and its \<open>avg\<close> is the mean of the overall scores of the responses
  that reach the destination through tour and itinerary (\<open>destResponses\<close>, see
  \<open>destResponses_chain\<close>). The same mean is what the map step computes for any
  destination with at least one qualifying response, before rows are dropped.
\<close>

theorem destStats_no_data_excluded:
  "(\<forall>d \<in> set (destinations D).
      destResponses D (filteredData D F) d = [] \<longrightarrow>
      d \<notin> dest ` set (destStats rnd D (filteredData D F)))
   \<and> (\<forall>s \<in> set (destStats rnd D (filteredData D F)).
        destResponses D (filteredData D F) (dest s) \<noteq> [] \<and>
        avg s = sum_list (map (\<lambda>r. overall (scores r)) (destResponses D (filteredData D F) (dest s)))
                / real (length (destResponses D (filteredData D F) (dest s))))
   \<and> (\<forall>k d. destResponses D (filteredData D F) d \<noteq> [] \<longrightarrow>
        avg (destStat rnd D (filteredData D F) (k, d))
          = sum_list (map (\<lambda>r. overall (scores r)) (destResponses D (filteredData D F) d))
            / real (length (destResponses D (filteredData D F) d)))"
proof (intro conjI ballI impI allI)
  fix k d
  assume "destResponses D (filteredData D F) d \<noteq> []"
  then show "avg (destStat rnd D (filteredData D F) (k, d))
          = sum_list (map (\<lambda>r. overall (scores r)) (destResponses D (filteredData D F) d))
            / real (length (destResponses D (filteredData D F) d))"
    by (simp add: destStat_avg)
next
  fix d
  assume "destResponses D (filteredData D F) d = []"
  then have "avg (destStat rnd D (filteredData D F) (k, d)) = 0" for k
    by (simp add: destStat_avg)
  then show "d \<notin> dest ` set (destStats rnd D (filteredData D F))"
    by (auto simp: destStats_set destStat_dest)
next
  fix s
  assume "s \<in> set (destStats rnd D (filteredData D F))"
  then obtain k where s: "s = destStat rnd D (filteredData D F) (k, destinations D ! k)"
    and pos: "avg s > 0"
    by (rule destStats_row)
  from pos show "destResponses D (filteredData D F) (dest s) \<noteq> []"
    by (auto simp: s destStat_avg destStat_dest split: if_splits)
  then show "avg s = sum_list (map (\<lambda>r. overall (scores r)) (destResponses D (filteredData D F) (dest s)))
                / real (length (destResponses D (filteredData D F) (dest s)))"
    by (simp add: s destStat_avg destStat_dest)
qed

theorem destStats_no_data_excluded_witness:
  "iceland \<in> set (destinations sampleData)
   \<and> destResponses sampleData (filteredData sampleData defaultFilters) iceland = []
   \<and> iceland \<notin> dest ` set (destStats (constDraw (1 / 2)) sampleData (filteredData sampleData defaultFilters))
   \<and> map dest (destStats (constDraw (1 / 2)) sampleData (filteredData sampleData defaultFilters)) = [bali]
   \<and> map avg (destStats (constDraw (1 / 2)) sampleData (filteredData sampleData defaultFilters)) = [13 / 2]
   \<and> map (\<lambda>r. overall (scores r)) (destResponses sampleData (filteredData sampleData defaultFilters) bali) = [7, 6]"
proof -
  have a: "iceland \<in> set (destinations sampleData)"
    by (simp add: sampleData_def store_def)
  have b: "destResponses sampleData (filteredData sampleData defaultFilters) iceland = []"
    by code_simp
  have c: "map dest (destStats (constDraw (1 / 2)) sampleData (filteredData sampleData defaultFilters)) = [bali]"
    by code_simp
  have d: "map avg (destStats (constDraw (1 / 2)) sampleData (filteredData sampleData defaultFilters)) = [13 / 2]"
    by code_simp
  have e: "map (\<lambda>r. overall (scores r)) (destResponses sampleData (filteredData sampleData defaultFilters) bali) = [7, 6]"
    by code_simp
  from destStats_no_data_excluded [of sampleData defaultFilters "constDraw (1 / 2)"] a b
  have "iceland \<notin> dest ` set (destStats (constDraw (1 / 2)) sampleData (filteredData sampleData defaultFilters))"
    by blast
  with a b c d e show ?thesis by blast
qed

text \<open>
  Claim C9. With \<^verbatim>\<open>onlyBelow8\<close> enabled, every row of \<open>destStats\<close> computed from the
  filtered responses has \<open>below8 = 100\<close>, and so has the row computed for any destination
  with at least one qualifying response: the percentage is taken over responses that all
  score below 8 already.
\<close>

theorem below8_is_100_under_threshold_filter:
  assumes "onlyBelow8 F"
  shows "(\<forall>s \<in> set (destStats rnd D (filteredData D F)). below8 s = 100)
         \<and> (\<forall>k d. destResponses D (filteredData D F) d \<noteq> [] \<longrightarrow>
                below8 (destStat rnd D (filteredData D F) (k, d)) = 100)"
proof -
  have all: "filter (\<lambda>r. overall (scores r) < 8) (destResponses D (filteredData D F) d)
             = destResponses D (filteredData D F) d" for d
    using assms by (intro filter_True ballI) (auto simp: destResponses_def filteredData_below8)
  have row: "below8 (destStat rnd D (filteredData D F) (k, d)) = 100"
    if "destResponses D (filteredData D F) d \<noteq> []" for k d
    using that by (simp add: destStat_below8 all)
  have "below8 s = 100" if "s \<in> set (destStats rnd D (filteredData D F))" for s
  proof -
    from that obtain k where s: "s = destStat rnd D (filteredData D F) (k, destinations D ! k)"
      and pos: "avg s > 0"
      by (rule destStats_row)
    from pos have "destResponses D (filteredData D F) (destinations D ! k) \<noteq> []"
      by (auto simp: s destStat_avg split: if_splits)
    then show ?thesis by (simp add: s row)
  qed
  with row show ?thesis by blast
qed

theorem below8_is_100_under_threshold_filter_witness:
  "onlyBelow8 defaultFilters
   \<and> map r_id (destResponses sampleData (filteredData sampleData defaultFilters) bali)
       = [''r-t-i1-w0-0'', ''r-t-i1-w0-1'']
   \<and> below8 (destStat (constDraw (1 / 2)) sampleData (filteredData sampleData defaultFilters) (0, bali)) = 100
   \<and> map below8 (destStats (constDraw (1 / 2)) sampleData (filteredData sampleData defaultFilters)) = [100]"
proof -
  have a: "onlyBelow8 defaultFilters"
    by (simp add: defaultFilters_def)
  have b: "map r_id (destResponses sampleData (filteredData sampleData defaultFilters) bali)
       = [''r-t-i1-w0-0'', ''r-t-i1-w0-1'']"
    by code_simp
  then have b': "destResponses sampleData (filteredData sampleData defaultFilters) bali \<noteq> []"
    by auto
  have c: "map below8 (destStats (constDraw (1 / 2)) sampleData (filteredData sampleData defaultFilters)) = [100]"
    by code_simp
  from below8_is_100_under_threshold_filter [OF a, of "constDraw (1 / 2)" sampleData] b'
  have "below8 (destStat (constDraw (1 / 2)) sampleData (filteredData sampleData defaultFilters) (0, bali)) = 100"
    by blast
  with a b c show ?thesis by blast
qed

text \<open>
  Claim C10. The filter \<^verbatim>\<open>s => s.avg > 0\<close> keeps exactly the destinations whose mean
  overall score is strictly positive: every row has \<open>avg > 0\<close>, a destination of the store
  has a row if and only if it has qualifying responses whose scores sum to more than 0, and
  a destination all of whose qualifying responses score 0 has no row although it has data.
\<close>

theorem destStats_keeps_positive_mean_only:
  "(\<forall>s \<in> set (destStats rnd D (filteredData D F)). avg s > 0)
   \<and> (\<forall>d \<in> set (destinations D).
        d \<in> dest ` set (destStats rnd D (filteredData D F)) \<longleftrightarrow>
        destResponses D (filteredData D F) d \<noteq> [] \<and>
        sum_list (map (\<lambda>r. overall (scores r)) (destResponses D (filteredData D F) d)) > 0)
   \<and> (\<forall>d \<in> set (destinations D).
        destResponses D (filteredData D F) d \<noteq> [] \<and>
        (\<forall>r \<in> set (destResponses D (filteredData D F) d). overall (scores r) = 0) \<longrightarrow>
        d \<notin> dest ` set (destStats rnd D (filteredData D F)))"
proof -
  let ?fd = "filteredData D F"
  let ?sum = "\<lambda>d. sum_list (map (\<lambda>r. overall (scores r)) (destResponses D ?fd d))"
  have pos: "avg (destStat rnd D ?fd (k, d)) > 0 \<longleftrightarrow> destResponses D ?fd d \<noteq> [] \<and> ?sum d > 0"
    for k d
    by (simp add: destStat_avg zero_less_divide_iff)
  have mem: "d \<in> dest ` set (destStats rnd D ?fd) \<longleftrightarrow> destResponses D ?fd d \<noteq> [] \<and> ?sum d > 0"
    if "d \<in> set (destinations D)" for d
  proof
    assume "d \<in> dest ` set (destStats rnd D ?fd)"
    then obtain s where s: "s \<in> set (destStats rnd D ?fd)" and d: "d = dest s" by blast
    from s obtain k where "s = destStat rnd D ?fd (k, destinations D ! k)" and "avg s > 0"
      by (rule destStats_row)
    with d show "destResponses D ?fd d \<noteq> [] \<and> ?sum d > 0"
      using pos [of k "destinations D ! k"] by (simp add: destStat_dest)
  next
    assume r: "destResponses D ?fd d \<noteq> [] \<and> ?sum d > 0"
    from that obtain k where k: "k < length (destinations D)" "destinations D ! k = d"
      by (auto simp: in_set_conv_nth)
    then have "(k, d) \<in> set (enumerate 0 (destinations D))"
      by (auto simp: in_set_enumerate_eq)
    moreover from r have "avg (destStat rnd D ?fd (k, d)) > 0"
      using pos by blast
    ultimately have "destStat rnd D ?fd (k, d) \<in> set (destStats rnd D ?fd)"
      by (auto simp: destStats_set)
    then have "dest (destStat rnd D ?fd (k, d)) \<in> dest ` set (destStats rnd D ?fd)"
      by (rule imageI)
    then show "d \<in> dest ` set (destStats rnd D ?fd)"
      by (simp add: destStat_dest)
  qed
  have zero: "?sum d = 0" if "\<forall>r \<in> set (destResponses D ?fd d). overall (scores r) = 0" for d
    using that by (rule sum_list_all_zero)
  have "\<forall>s \<in> set (destStats rnd D ?fd). avg s > 0"
    by (auto simp: destStats_set)
  with mem zero show ?thesis by (metis less_irrefl)
qed

theorem destStats_keeps_positive_mean_only_witness:
  "iceland \<in> set (destinations zeroScoreData)
   \<and> map (\<lambda>r. overall (scores r)) (destResponses zeroScoreData (filteredData zeroScoreData defaultFilters) iceland) = [0]
   \<and> iceland \<notin> dest ` set (destStats (constDraw (1 / 2)) zeroScoreData (filteredData zeroScoreData defaultFilters))
   \<and> map dest (destStats (constDraw (1 / 2)) zeroScoreData (filteredData zeroScoreData defaultFilters)) = [bali]"
proof -
  let ?fd = "filteredData zeroScoreData defaultFilters"
  have a: "iceland \<in> set (destinations zeroScoreData)"
    by (simp add: zeroScoreData_def store_def)
  have b: "map (\<lambda>r. overall (scores r)) (destResponses zeroScoreData ?fd iceland) = [0]"
    by code_simp
  then have b1: "destResponses zeroScoreData ?fd iceland \<noteq> []"
    by auto
  from b have "\<forall>x \<in> set (map (\<lambda>r. overall (scores r)) (destResponses zeroScoreData ?fd iceland)). x = 0"
    by simp
  then have b2: "\<forall>r \<in> set (destResponses zeroScoreData ?fd iceland). overall (scores r) = 0"
    by simp
  have c: "map dest (destStats (constDraw (1 / 2)) zeroScoreData ?fd) = [bali]"
    by code_simp
  from destStats_keeps_positive_mean_only [of "constDraw (1 / 2)" zeroScoreData defaultFilters] a b1 b2
  have "iceland \<notin> dest ` set (destStats (constDraw (1 / 2)) zeroScoreData ?fd)"
    by blast
  with a b c show ?thesis by blast
qed

text \<open>
  Claim C1, as stated, fails. In \<open>singleResponseData\<close> the whole population is one
  response, so Bali has no data in any earlier period; the claim excludes it from the
  delta ranking. \<open>destStats\<close> ranks it, with \<open>delta = -2/5\<close> when the random draw is
  \<open>1/2\<close> and \<open>delta = 2/5\<close> when the draw is \<open>9/10\<close>: the value is not a difference of
  period averages of the data.
\<close>

theorem delta_from_period_averages_counterexample:
  "surveyResponses singleResponseData = [response ''r-t-i1-w0-0'' ''t-i1-w0'' 7]
   \<and> map dest (destStats (constDraw (1 / 2)) singleResponseData (filteredData singleResponseData defaultFilters)) = [bali]
   \<and> map delta (destStats (constDraw (1 / 2)) singleResponseData (filteredData singleResponseData defaultFilters)) = [- 2 / 5]
   \<and> map delta (destStats (constDraw (9 / 10)) singleResponseData (filteredData singleResponseData defaultFilters)) = [2 / 5]"
proof -
  have a: "surveyResponses singleResponseData = [response ''r-t-i1-w0-0'' ''t-i1-w0'' 7]"
    by (simp add: singleResponseData_def store_def)
  have b: "map dest (destStats (constDraw (1 / 2)) singleResponseData (filteredData singleResponseData defaultFilters)) = [bali]"
    by code_simp
  have c: "map delta (destStats (constDraw (1 / 2)) singleResponseData (filteredData singleResponseData defaultFilters)) = [- 2 / 5]"
    by code_simp
  have d: "map delta (destStats (constDraw (9 / 10)) singleResponseData (filteredData singleResponseData defaultFilters)) = [2 / 5]"
    by code_simp
  from a b c d show ?thesis by blast
qed

text \<open>
  Claim C1, amended. Every row of \<open>destStats\<close> is the row of a destination at some index
  \<open>k\<close> of \<^verbatim>\<open>destinations\<close>, and its \<open>delta\<close> is \<open>(r - 0.7) * 2\<close> for the value \<open>r\<close> that
  \<^verbatim>\<open>Math.random()\<close> returned for that destination; no period average enters it. Every
  destination whose average is positive is ranked, whatever its history. The rows are in
  ascending order of \<open>delta\<close>, and with draws in \<open>[0, 1)\<close> every \<open>delta\<close> lies in
  \<open>[-1.4, 0.6)\<close>.
\<close>

theorem destStats_delta_is_random_draw:
  "(\<forall>s \<in> set (destStats rnd D fd).
      \<exists>k < length (destinations D).
        s = destStat rnd D fd (k, destinations D ! k) \<and> delta s = (rnd k - 7 / 10) * 2)
   \<and> (\<forall>k < length (destinations D).
        avg (destStat rnd D fd (k, destinations D ! k)) > 0 \<longrightarrow>
        destStat rnd D fd (k, destinations D ! k) \<in> set (destStats rnd D fd))
   \<and> sorted (map delta (destStats rnd D fd))
   \<and> ((\<forall>k. 0 \<le> rnd k \<and> rnd k < 1) \<longrightarrow>
        (\<forall>s \<in> set (destStats rnd D fd). - 7 / 5 \<le> delta s \<and> delta s < 3 / 5))"
proof -
  have rows: "\<exists>k < length (destinations D).
        s = destStat rnd D fd (k, destinations D ! k) \<and> delta s = (rnd k - 7 / 10) * 2"
    if "s \<in> set (destStats rnd D fd)" for s
  proof -
    from that obtain k where "k < length (destinations D)"
      and "s = destStat rnd D fd (k, destinations D ! k)"
      by (rule destStats_row)
    then show ?thesis by (auto simp: destStat_delta)
  qed
  have incl: "destStat rnd D fd (k, destinations D ! k) \<in> set (destStats rnd D fd)"
    if "k < length (destinations D)" "avg (destStat rnd D fd (k, destinations D ! k)) > 0" for k
  proof -
    from that(1) have "(k, destinations D ! k) \<in> set (enumerate 0 (destinations D))"
      by (simp add: in_set_enumerate_eq)
    with that(2) show ?thesis by (auto simp: destStats_set)
  qed
  have srt: "sorted (map delta (destStats rnd D fd))"
    by (simp add: destStats_def)
  have bounds: "- 7 / 5 \<le> delta s \<and> delta s < 3 / 5"
    if "\<forall>k. 0 \<le> rnd k \<and> rnd k < 1" "s \<in> set (destStats rnd D fd)" for s
  proof -
    from rows [OF that(2)] obtain k where d: "delta s = (rnd k - 7 / 10) * 2" by blast
    from that(1) have "0 \<le> rnd k" "rnd k < 1" by auto
    with d show ?thesis by simp
  qed
  from rows incl srt bounds show ?thesis by blast
qed

theorem destStats_delta_is_random_draw_witness:
  "avg (destStat (constDraw (1 / 2)) sampleData (filteredData sampleData defaultFilters) (0, bali)) = 13 / 2
   \<and> destStat (constDraw (1 / 2)) sampleData (filteredData sampleData defaultFilters) (0, bali)
       \<in> set (destStats (constDraw (1 / 2)) sampleData (filteredData sampleData defaultFilters))
   \<and> - 7 / 5 \<le> delta (destStat (constDraw (1 / 2)) sampleData (filteredData sampleData defaultFilters) (0, bali))
   \<and> delta (destStat (constDraw (1 / 2)) sampleData (filteredData sampleData defaultFilters) (0, bali)) < 3 / 5
   \<and> map delta (destStats (constDraw (1 / 2)) sampleData (filteredData sampleData defaultFilters)) = [- 2 / 5]
   \<and> sorted (map delta (destStats (constDraw (1 / 2)) sampleData (filteredData sampleData defaultFilters)))"
proof -
  let ?rnd = "constDraw (1 / 2)"
  let ?fd = "filteredData sampleData defaultFilters"
  note inst = destStats_delta_is_random_draw [of ?rnd sampleData ?fd]
  have len: "0 < length (destinations sampleData)" and nth: "destinations sampleData ! 0 = bali"
    by (simp_all add: sampleData_def store_def)
  have a: "avg (destStat ?rnd sampleData ?fd (0, bali)) = 13 / 2"
    by code_simp
  then have pos: "avg (destStat ?rnd sampleData ?fd (0, destinations sampleData ! 0)) > 0"
    by (simp add: nth)
  from inst len pos have "destStat ?rnd sampleData ?fd (0, destinations sampleData ! 0)
      \<in> set (destStats ?rnd sampleData ?fd)"
    by blast
  then have mem: "destStat ?rnd sampleData ?fd (0, bali) \<in> set (destStats ?rnd sampleData ?fd)"
    by (simp add: nth)
  have rng: "\<forall>k. 0 \<le> ?rnd k \<and> ?rnd k < 1"
    by (simp add: constDraw_def)
  from inst rng mem have bnd: "- 7 / 5 \<le> delta (destStat ?rnd sampleData ?fd (0, bali))
      \<and> delta (destStat ?rnd sampleData ?fd (0, bali)) < 3 / 5"
    by blast
  have d: "map delta (destStats ?rnd sampleData ?fd) = [- 2 / 5]"
    by code_simp
  from inst have srt: "sorted (map delta (destStats ?rnd sampleData ?fd))"
    by blast
  from a mem bnd d srt show ?thesis by blast
qed

section \<open>Issue aggregation\<close>

text \<open>
  Claim C2, as stated, fails. The annotation of the one response of \<open>duplicateTagData\<close>
  lists \<^verbatim>\<open>logistics_failures\<close> in both tag lists; the response raises the tag's counter
  to 2, in \<open>issuesCount\<close> and in \<open>destIssues\<close> alike.
\<close>

theorem dedup_per_response_counterexample:
  "map r_id (filteredData duplicateTagData defaultFilters) = [''r-t-i1-w0-0'']
   \<and> map allTags (annotations duplicateTagData) = [[''logistics_failures'', ''logistics_failures'']]
   \<and> issuesCount duplicateTagData (filteredData duplicateTagData defaultFilters)
       = [(''logistics_failures'', 2)]
   \<and> issueCount (destIssues duplicateTagData (filteredData duplicateTagData defaultFilters))
        ''logistics_failures'' = 2"
proof -
  have a: "map r_id (filteredData duplicateTagData defaultFilters) = [''r-t-i1-w0-0'']"
    by code_simp
  have b: "map allTags (annotations duplicateTagData) = [[''logistics_failures'', ''logistics_failures'']]"
    by code_simp
  have c: "issuesCount duplicateTagData (filteredData duplicateTagData defaultFilters)
       = [(''logistics_failures'', 2)]"
    by code_simp
  have d: "issueCount (destIssues duplicateTagData (filteredData duplicateTagData defaultFilters))
        ''logistics_failures'' = 2"
    by code_simp
  from a b c d show ?thesis by blast
qed

text \<open>
  Claim C2, amended. A response without annotation leaves every counter as it is. A
  response with an annotation raises the counter of a tag by the number of times the tag
  occurs in the concatenation of \<^verbatim>\<open>productTags\<close> and \<^verbatim>\<open>coordinatorTags\<close>; nothing is
  deduplicated. When the concatenation has no repetition, that is by exactly one for each
  tag in it and by nothing for any other tag.
\<close>

theorem tag_counter_counts_every_occurrence:
  "(annotationOf D r = None \<longrightarrow>
      getCount (issuesCount_step D ic r) tag = getCount ic tag
      \<and> issueCount (destIssues_step D di r) tag = issueCount di tag)
   \<and> (\<forall>ann. annotationOf D r = Some ann \<longrightarrow>
        getCount (issuesCount_step D ic r) tag = getCount ic tag + count_list (allTags ann) tag
        \<and> issueCount (destIssues_step D di r) tag = issueCount di tag + count_list (allTags ann) tag
        \<and> (distinct (allTags ann) \<longrightarrow>
             count_list (allTags ann) tag = (if tag \<in> set (allTags ann) then 1 else 0)))"
  by (auto simp: annotationOf_def issuesCount_step_def destIssues_step_def
      getCount_foldl_bumpCount issueCount_foldl_bumpIssue count_list_distinct)

theorem tag_counter_counts_every_occurrence_witness:
  "annotationOf sampleData (response ''r-t-i1-w0-1'' ''t-i1-w0'' 6)
     = Some (annotation ''r-t-i1-w0-1'' [''cleanliness_hygiene'', ''poor_accommodation_quality'']
              [''weak_leadership_decision_making''] MEDIUM)
   \<and> distinct (allTags (annotation ''r-t-i1-w0-1'' [''cleanliness_hygiene'', ''poor_accommodation_quality'']
              [''weak_leadership_decision_making''] MEDIUM))
   \<and> getCount (issuesCount_step sampleData [(''cleanliness_hygiene'', 4)]
        (response ''r-t-i1-w0-1'' ''t-i1-w0'' 6)) ''cleanliness_hygiene'' = 5
   \<and> issueCount (destIssues_step sampleData [] (response ''r-t-i1-w0-1'' ''t-i1-w0'' 6))
        ''cleanliness_hygiene'' = 1
   \<and> annotationOf sampleData (response ''r-t-i3-w0-0'' ''t-i3-w0'' 9) = None
   \<and> getCount (issuesCount_step sampleData [(''cleanliness_hygiene'', 4)]
        (response ''r-t-i3-w0-0'' ''t-i3-w0'' 9)) ''cleanliness_hygiene'' = 4"
proof -
  let ?r = "response ''r-t-i1-w0-1'' ''t-i1-w0'' 6"
  let ?q = "response ''r-t-i3-w0-0'' ''t-i3-w0'' 9"
  let ?ann = "annotation ''r-t-i1-w0-1'' [''cleanliness_hygiene'', ''poor_accommodation_quality'']
              [''weak_leadership_decision_making''] MEDIUM"
  let ?ic = "[(''cleanliness_hygiene'', 4 :: nat)]"
  have a: "annotationOf sampleData ?r = Some ?ann"
    by (simp add: annotationOf_def sampleData_def store_def response_def annotation_def)
  have b: "distinct (allTags ?ann)"
    by (simp add: allTags_def annotation_def)
  have c: "annotationOf sampleData ?q = None"
    by (simp add: annotationOf_def sampleData_def store_def response_def annotation_def)
  have cnt: "count_list (allTags ?ann) ''cleanliness_hygiene'' = 1"
    by (simp add: allTags_def annotation_def)
  have g: "getCount ?ic ''cleanliness_hygiene'' = 4" "issueCount [] ''cleanliness_hygiene'' = 0"
    by (simp_all add: getCount_def issueCount_def)
  from tag_counter_counts_every_occurrence [of sampleData ?r ?ic "''cleanliness_hygiene''" "[]"] a cnt g
  have d: "getCount (issuesCount_step sampleData ?ic ?r) ''cleanliness_hygiene'' = 5"
    and e: "issueCount (destIssues_step sampleData [] ?r) ''cleanliness_hygiene'' = 1"
    by simp_all
  from tag_counter_counts_every_occurrence [of sampleData ?q ?ic "''cleanliness_hygiene''" "[]"] c g
  have f: "getCount (issuesCount_step sampleData ?ic ?q) ''cleanliness_hygiene'' = 4"
    by simp
  from a b c d e f show ?thesis by blast
qed

text \<open>
  Claim C3, as stated, fails. In \<open>tiedTagsData\<close> two tags have count 1;
  \<^verbatim>\<open>cleanliness_hygiene\<close> is the smaller name, yet the top issue is
  \<^verbatim>\<open>poor_accommodation_quality\<close>, the tag met first. The same two counts entered in
  the other order give the other top issue, so the result is not determined by the
  tag-to-count mapping alone.
\<close>

theorem tie_break_by_name_counterexample:
  "issuesCount tiedTagsData (filteredData tiedTagsData defaultFilters)
     = [(''poor_accommodation_quality'', 1), (''cleanliness_hygiene'', 1)]
   \<and> ''cleanliness_hygiene'' < ''poor_accommodation_quality''
   \<and> topIssue (issuesCount tiedTagsData (filteredData tiedTagsData defaultFilters))
       = Some (''poor_accommodation_quality'', 1)
   \<and> topIssue [(''cleanliness_hygiene'', 1), (''poor_accommodation_quality'', 1)]
       = Some (''cleanliness_hygiene'', 1)"
proof -
  have a: "issuesCount tiedTagsData (filteredData tiedTagsData defaultFilters)
     = [(''poor_accommodation_quality'', 1), (''cleanliness_hygiene'', 1)]"
    by code_simp
  have b: "''cleanliness_hygiene'' < ''poor_accommodation_quality''"
    by code_simp
  have c: "topIssue (issuesCount tiedTagsData (filteredData tiedTagsData defaultFilters))
       = Some (''poor_accommodation_quality'', 1)"
    by code_simp
  have d: "topIssue [(''cleanliness_hygiene'', 1), (''poor_accommodation_quality'', 1)]
       = Some (''cleanliness_hygiene'', 1)"
    by code_simp
  from a b c d show ?thesis by blast
qed

text \<open>
  Claim C3, amended. The top issue is a function of the counter object, keys in their
  order included, so the same input gives the same top tag. There is none exactly when the
  object is empty. Otherwise it is an entry of maximal count, and among the entries with
  that count it is the first one that \<^verbatim>\<open>Object.entries\<close> lists: ties keep
  enumeration order, which for tags that are not array indices is the order of first
  insertion; names are never compared. The same holds for \<open>topDestIssue\<close>.
\<close>

theorem top_issue_is_first_maximal_entry:
  "(topIssue ic = None \<longleftrightarrow> ic = [])
   \<and> (\<forall>t c. topIssue ic = Some (t, c) \<longrightarrow>
        (t, c) \<in> set ic \<and> (\<forall>e \<in> set ic. snd e \<le> c)
        \<and> find (\<lambda>e. snd e = c) (Object_entries ic) = Some (t, c)
        \<and> ((\<forall>e \<in> set ic. \<not> isArrayIndex (fst e)) \<longrightarrow> find (\<lambda>e. snd e = c) ic = Some (t, c)))
   \<and> (topDestIssue di = None \<longleftrightarrow> di = [])
   \<and> (\<forall>t st. topDestIssue di = Some (t, st) \<longrightarrow>
        (t, st) \<in> set di \<and> (\<forall>e \<in> set di. count (snd e) \<le> count st)
        \<and> find (\<lambda>e. count (snd e) = count st) (Object_entries di) = Some (t, st)
        \<and> ((\<forall>e \<in> set di. \<not> isArrayIndex (fst e)) \<longrightarrow>
             find (\<lambda>e. count (snd e) = count st) di = Some (t, st)))"
proof -
  have "topIssue ic = None \<longleftrightarrow> sort_key (\<lambda>e. - int (snd e)) (Object_entries ic) = []"
    by (simp add: topIssue_def split: list.splits)
  then have n1: "topIssue ic = None \<longleftrightarrow> ic = []"
    by (simp only: ranked_Nil_iff)
  have "topDestIssue di = None \<longleftrightarrow> sort_key (\<lambda>e. - int (count (snd e))) (Object_entries di) = []"
    by (simp add: topDestIssue_def split: list.splits)
  then have n2: "topDestIssue di = None \<longleftrightarrow> di = []"
    by (simp only: ranked_Nil_iff)
  have s1: "(t, c) \<in> set ic \<and> (\<forall>e \<in> set ic. snd e \<le> c)
        \<and> find (\<lambda>e. snd e = c) (Object_entries ic) = Some (t, c)
        \<and> ((\<forall>e \<in> set ic. \<not> isArrayIndex (fst e)) \<longrightarrow> find (\<lambda>e. snd e = c) ic = Some (t, c))"
    if "topIssue ic = Some (t, c)" for t c
  proof -
    from that obtain rest where
      srt: "sort_key (\<lambda>e. - int (snd e)) (Object_entries ic) = (t, c) # rest"
      by (auto simp: topIssue_def split: list.splits)
    note h = sort_key_head [OF srt]
    from h(1) have a: "(t, c) \<in> set ic" by (simp add: set_Object_entries)
    from h(2) have b: "\<forall>e \<in> set ic. snd e \<le> c" by (simp add: set_Object_entries)
    from h(3) have c: "find (\<lambda>e. snd e = c) (Object_entries ic) = Some (t, c)" by simp
    then have "(\<forall>e \<in> set ic. \<not> isArrayIndex (fst e)) \<longrightarrow> find (\<lambda>e. snd e = c) ic = Some (t, c)"
      by (auto simp: Object_entries_no_index)
    with a b c show ?thesis by blast
  qed
  have s2: "(t, st) \<in> set di \<and> (\<forall>e \<in> set di. count (snd e) \<le> count st)
        \<and> find (\<lambda>e. count (snd e) = count st) (Object_entries di) = Some (t, st)
        \<and> ((\<forall>e \<in> set di. \<not> isArrayIndex (fst e)) \<longrightarrow>
             find (\<lambda>e. count (snd e) = count st) di = Some (t, st))"
    if "topDestIssue di = Some (t, st)" for t st
  proof -
    from that obtain rest where
      srt: "sort_key (\<lambda>e. - int (count (snd e))) (Object_entries di) = (t, st) # rest"
      by (auto simp: topDestIssue_def split: list.splits)
    note h = sort_key_head [OF srt]
    from h(1) have a: "(t, st) \<in> set di" by (simp add: set_Object_entries)
    from h(2) have b: "\<forall>e \<in> set di. count (snd e) \<le> count st" by (simp add: set_Object_entries)
    from h(3) have c: "find (\<lambda>e. count (snd e) = count st) (Object_entries di) = Some (t, st)" by simp
    then have "(\<forall>e \<in> set di. \<not> isArrayIndex (fst e)) \<longrightarrow>
             find (\<lambda>e. count (snd e) = count st) di = Some (t, st)"
      by (auto simp: Object_entries_no_index)
    with a b c show ?thesis by blast
  qed
  from n1 n2 s1 s2 show ?thesis by blast
qed

theorem top_issue_is_first_maximal_entry_witness:
  "topIssue (issuesCount sampleData (filteredData sampleData defaultFilters))
     = Some (''poor_accommodation_quality'', 2)
   \<and> find (\<lambda>e. snd e = 2) (issuesCount sampleData (filteredData sampleData defaultFilters))
       = Some (''poor_accommodation_quality'', 2)
   \<and> topDestIssue tiedIssues
       = Some (''poor_accommodation_quality'', \<lparr>count = 1, severity = (\<lambda>_. 0)(LOW := 1)\<rparr>)
   \<and> find (\<lambda>e. count (snd e) = 1) tiedIssues
       = Some (''poor_accommodation_quality'', \<lparr>count = 1, severity = (\<lambda>_. 0)(LOW := 1)\<rparr>)"
proof -
  let ?ic = "issuesCount sampleData (filteredData sampleData defaultFilters)"
  let ?st = "\<lparr>count = 1, severity = (\<lambda>_. 0)(LOW := 1 :: nat)\<rparr>"
  note inst = top_issue_is_first_maximal_entry [of ?ic tiedIssues]
  have a: "topIssue ?ic = Some (''poor_accommodation_quality'', 2)"
    by code_simp
  have "list_all (\<lambda>e. \<not> isArrayIndex (fst e)) ?ic"
    by code_simp
  then have b: "\<forall>e \<in> set ?ic. \<not> isArrayIndex (fst e)"
    by (simp add: list_all_iff)
  have c: "topDestIssue tiedIssues = Some (''poor_accommodation_quality'', ?st)"
    by (simp add: topDestIssue_def tiedIssues_def Object_entries_def isArrayIndex_def)
  have d: "\<forall>e \<in> set tiedIssues. \<not> isArrayIndex (fst e)"
    by (simp add: tiedIssues_def isArrayIndex_def)
  from inst a b have e: "find (\<lambda>e. snd e = 2) ?ic = Some (''poor_accommodation_quality'', 2)"
    by blast
  from inst c d have "find (\<lambda>e. count (snd e) = count ?st) tiedIssues
      = Some (''poor_accommodation_quality'', ?st)"
    by blast
  then have f: "find (\<lambda>e. count (snd e) = 1) tiedIssues = Some (''poor_accommodation_quality'', ?st)"
    by simp
  from a c e f show ?thesis by blast
qed

text \<open>
  Claim C4, as stated, fails. The one response of \<open>untaggedData\<close> has an annotation whose
  tag lists are both empty: the subset has one annotated response, and the counters sum
  to 0.
\<close>

theorem issue_count_conservation_counterexample:
  "map r_id (annotated untaggedData (filteredData untaggedData defaultFilters)) = [''r-t-i1-w0-0'']
   \<and> sum_list (map snd (Object_entries (issuesCount untaggedData (filteredData untaggedData defaultFilters)))) = 0"
proof -
  have a: "map r_id (annotated untaggedData (filteredData untaggedData defaultFilters)) = [''r-t-i1-w0-0'']"
    by code_simp
  have b: "sum_list (map snd (Object_entries (issuesCount untaggedData (filteredData untaggedData defaultFilters)))) = 0"
    by code_simp
  from a b show ?thesis by blast
qed

text \<open>
  Claim C4, amended. The sum of the occurrence counts over all tags equals the total
  number of tag entries carried by the annotations of the responses in the subset. It is
  at least the number of annotated responses when every annotated response carries at
  least one tag, and equal to it when every annotated response carries exactly one tag.
\<close>

theorem issue_count_sum:
  "sum_list (map snd (Object_entries (issuesCount D rs))) = sum_list (map (\<lambda>r. length (tagsOf D r)) rs)
   \<and> ((\<forall>r \<in> set rs. annotationOf D r \<noteq> None \<longrightarrow> tagsOf D r \<noteq> []) \<longrightarrow>
        length (annotated D rs) \<le> sum_list (map snd (Object_entries (issuesCount D rs))))
   \<and> ((\<forall>r \<in> set rs. annotationOf D r \<noteq> None \<longrightarrow> length (tagsOf D r) = 1) \<longrightarrow>
        sum_list (map snd (Object_entries (issuesCount D rs))) = length (annotated D rs))"
  using tags_ge_annotated [of rs D] tags_eq_annotated [of rs D]
  by (simp add: sum_list_issuesCount)

theorem issue_count_sum_witness:
  "map (\<lambda>r. length (tagsOf sampleData r)) (filteredData sampleData defaultFilters) = [1, 3]
   \<and> length (annotated sampleData (filteredData sampleData defaultFilters)) = 2
   \<and> sum_list (map snd (Object_entries (issuesCount sampleData (filteredData sampleData defaultFilters)))) = 4
   \<and> length (annotated sampleData (filteredData sampleData defaultFilters))
       \<le> sum_list (map snd (Object_entries (issuesCount sampleData (filteredData sampleData defaultFilters))))
   \<and> map (\<lambda>r. length (tagsOf tiedTagsData r)) (filteredData tiedTagsData defaultFilters) = [1, 1]
   \<and> length (annotated tiedTagsData (filteredData tiedTagsData defaultFilters)) = 2
   \<and> sum_list (map snd (Object_entries (issuesCount tiedTagsData (filteredData tiedTagsData defaultFilters))))
       = length (annotated tiedTagsData (filteredData tiedTagsData defaultFilters))"
proof -
  let ?fd = "filteredData sampleData defaultFilters"
  let ?fd' = "filteredData tiedTagsData defaultFilters"
  have a: "map (\<lambda>r. length (tagsOf sampleData r)) ?fd = [1, 3]"
    by code_simp
  have b: "length (annotated sampleData ?fd) = 2"
    by code_simp
  have "list_all (\<lambda>r. annotationOf sampleData r \<noteq> None \<longrightarrow> tagsOf sampleData r \<noteq> []) ?fd"
    by code_simp
  then have h1: "\<forall>r \<in> set ?fd. annotationOf sampleData r \<noteq> None \<longrightarrow> tagsOf sampleData r \<noteq> []"
    by (simp add: list_all_iff)
  have a': "map (\<lambda>r. length (tagsOf tiedTagsData r)) ?fd' = [1, 1]"
    by code_simp
  have b': "length (annotated tiedTagsData ?fd') = 2"
    by code_simp
  have "list_all (\<lambda>r. annotationOf tiedTagsData r \<noteq> None \<longrightarrow> length (tagsOf tiedTagsData r) = 1) ?fd'"
    by code_simp
  then have h2: "\<forall>r \<in> set ?fd'. annotationOf tiedTagsData r \<noteq> None \<longrightarrow> length (tagsOf tiedTagsData r) = 1"
    by (simp add: list_all_iff)
  from issue_count_sum [of sampleData ?fd] a
  have c: "sum_list (map snd (Object_entries (issuesCount sampleData ?fd))) = 4"
    by simp
  from issue_count_sum [of sampleData ?fd] h1
  have d: "length (annotated sampleData ?fd) \<le> sum_list (map snd (Object_entries (issuesCount sampleData ?fd)))"
    by blast
  from issue_count_sum [of tiedTagsData ?fd'] h2
  have e: "sum_list (map snd (Object_entries (issuesCount tiedTagsData ?fd'))) = length (annotated tiedTagsData ?fd')"
    by blast
  from a b c d a' b' e show ?thesis by blast
qed

text \<open>
  Claim C8. For every response list (every scope) and every tag entry of \<open>destIssues\<close>,
  the counts of the three severities add up to the entry's occurrence count: each
  contribution raises the count and one severity bucket together. The aggregation of
  \<^verbatim>\<open>DestinationPage\<close> (\<^verbatim>\<open>issuesCount\<close> there) is the same code under another name.
\<close>

theorem severity_counts_sum_to_count:
  "\<forall>e \<in> set (Object_entries (destIssues D rs)).
     severity (snd e) LOW + severity (snd e) MEDIUM + severity (snd e) HIGH = count (snd e)"
  using foldl_destIssues_step_sevConsistent [of "[]" D rs]
  by (simp add: set_Object_entries destIssues_def sevConsistent_def)

theorem severity_counts_sum_to_count_witness:
  "map (\<lambda>e. (fst e, count (snd e), severity (snd e) LOW, severity (snd e) MEDIUM, severity (snd e) HIGH))
     (Object_entries (destIssues sampleData (destResponses sampleData (filteredData sampleData defaultFilters) bali)))
   = [(''poor_accommodation_quality'', 2, 1, 1, 0), (''cleanliness_hygiene'', 1, 0, 1, 0),
      (''weak_leadership_decision_making'', 1, 0, 1, 0)]
   \<and> sevConsistent (hd (Object_entries
        (destIssues sampleData (destResponses sampleData (filteredData sampleData defaultFilters) bali))))"
proof -
  let ?es = "Object_entries
        (destIssues sampleData (destResponses sampleData (filteredData sampleData defaultFilters) bali))"
  have a: "map (\<lambda>e. (fst e, count (snd e), severity (snd e) LOW, severity (snd e) MEDIUM, severity (snd e) HIGH)) ?es
   = [(''poor_accommodation_quality'', 2, 1, 1, 0), (''cleanliness_hygiene'', 1, 0, 1, 0),
      (''weak_leadership_decision_making'', 1, 0, 1, 0)]"
    by code_simp
  then have "?es \<noteq> []" by auto
  then have "hd ?es \<in> set ?es" by (rule hd_in_set)
  with severity_counts_sum_to_count
    [of sampleData "destResponses sampleData (filteredData sampleData defaultFilters) bali"]
  have "sevConsistent (hd ?es)"
    unfolding sevConsistent_def by blast
  with a show ?thesis by blast
qed

section \<open>Impact tracking and completed actions\<close>

text \<open>
  The page computes both aggregates over \<open>filteredActions\<close>; sorting by date does not change
  a sum, so the aggregate is the mean over the actions that pass the destination filter.
\<close>

lemma totalAvgImprovement_filteredActions:
  "totalAvgImprovement (filteredActions getTime fdest cas) =
     (let sel = filter (\<lambda>action. fdest = ''All'' \<or> ca_destinationId action = fdest) cas
      in if sel = [] then 0 else sum_list (map scoreDelta sel) / real (length sel))"
  by (simp add: totalAvgImprovement_def filteredActions_def foldl_add_sum_list Let_def
      sum_list_sort_key scoreDelta_def [abs_def])

lemma totalPctImprovement_filteredActions:
  "totalPctImprovement (filteredActions getTime fdest cas) =
     (let sel = filter (\<lambda>action. fdest = ''All'' \<or> ca_destinationId action = fdest) cas
      in if sel = [] then 0 else sum_list (map pctDelta sel) / real (length sel))"
  by (simp add: totalPctImprovement_def filteredActions_def foldl_add_sum_list Let_def
      sum_list_sort_key pctDelta_def [abs_def])

text \<open>
  Claim C6. For the empty list of corrective actions both aggregates are exactly 0. For
  every non-empty list, \<open>totalAvgImprovement\<close> is the arithmetic mean of the per-action
  \<open>scoreDelta\<close> and \<open>totalPctImprovement\<close> the arithmetic mean of the per-action
  \<open>pctDelta\<close>.
\<close>

theorem impact_aggregate_mean:
  "totalAvgImprovement [] = 0 \<and> totalPctImprovement [] = 0 \<and>
   (fa \<noteq> [] \<longrightarrow>
      totalAvgImprovement fa = sum_list (map scoreDelta fa) / real (length fa) \<and>
      totalPctImprovement fa = sum_list (map pctDelta fa) / real (length fa))"
  by (simp add: totalAvgImprovement_def totalPctImprovement_def foldl_add_sum_list
      scoreDelta_def [abs_def] pctDelta_def [abs_def])

theorem impact_aggregate_mean_witness:
  "[ca2, ca3] \<noteq> []
   \<and> map scoreDelta [ca2, ca3] = [8 / 5, 13 / 10]
   \<and> map pctDelta [ca2, ca3] = [57, 46]
   \<and> totalAvgImprovement [ca2, ca3] = 29 / 20
   \<and> totalPctImprovement [ca2, ca3] = 103 / 2"
proof -
  have a: "map scoreDelta [ca2, ca3] = [8 / 5, 13 / 10]"
    by (simp add: scoreDelta_def ca2_def ca3_def)
  have b: "map pctDelta [ca2, ca3] = [57, 46]"
    by (simp add: pctDelta_def ca2_def ca3_def)
  have ne: "[ca2, ca3] \<noteq> []" by simp
  from impact_aggregate_mean [of "[ca2, ca3]"] ne
  have "totalAvgImprovement [ca2, ca3] = sum_list (map scoreDelta [ca2, ca3]) / real (length [ca2, ca3])"
    and "totalPctImprovement [ca2, ca3] = sum_list (map pctDelta [ca2, ca3]) / real (length [ca2, ca3])"
    by blast+
  then have c: "totalAvgImprovement [ca2, ca3] = 29 / 20" and d: "totalPctImprovement [ca2, ca3] = 103 / 2"
    by (simp_all only: a b) simp_all
  from ne a b c d show ?thesis by blast
qed

subsection \<open>The constraints of the number controls\<close>










lemma readForm_valid:
  "readForm ctl = None \<Longrightarrow> \<not> checkValidity ctl"
  by (auto simp: readForm_def checkValidity_def numberInputValid_def split: option.splits)




end
